theory Spec2Isabelle
  imports Main
begin

section \<open>Python string primitives used by the engine\<close>

text \<open>
  Texts are modelled as \<open>string\<close>, one \<open>char\<close> per code point, which covers the
  code points 0 to 255. Indices, sizes and overlaps are Python integers (\<open>int\<close>).
\<close>

definition is_space :: "char \<Rightarrow> bool" where
  \<comment> \<open>\<open>str.isspace\<close> on one character: TAB, LF, VT, FF, CR, FS, GS, RS, US, SPACE, NEL, NBSP.\<close>
  "is_space c = (let n = (of_char c :: int) in
     (9 \<le> n \<and> n \<le> 13) \<or> (28 \<le> n \<and> n \<le> 32) \<or> n = 133 \<or> n = 160)"

definition py_strip :: "string \<Rightarrow> string" where
  \<comment> \<open>\<open>s.strip()\<close>: leading and trailing whitespace removed.\<close>
  "py_strip s = rev (dropWhile is_space (rev (dropWhile is_space s)))"

definition py_index :: "int \<Rightarrow> int \<Rightarrow> int" where
  \<comment> \<open>A slice bound \<open>i\<close> clipped to a sequence of length \<open>n\<close>; a negative bound counts from the end.\<close>
  "py_index n i = (if i < 0 then max 0 (n + i) else min i n)"

definition py_slice :: "'a list \<Rightarrow> int \<Rightarrow> int \<Rightarrow> 'a list" where
  \<comment> \<open>\<open>xs[i:j]\<close>\<close>
  "py_slice xs i j =
     (let n = int (length xs); a = py_index n i; b = py_index n j
      in take (nat (b - a)) (drop (nat a) xs))"

fun last_index :: "'a \<Rightarrow> 'a list \<Rightarrow> nat option" where
  "last_index c [] = None"
| "last_index c (x # xs) =
     (case last_index c xs of
        Some k \<Rightarrow> Some (Suc k)
      | None \<Rightarrow> if x = c then Some 0 else None)"

definition py_rfind :: "string \<Rightarrow> char \<Rightarrow> int \<Rightarrow> int \<Rightarrow> int" where
  \<comment> \<open>\<open>s.rfind(c, i, j)\<close> for a one-character \<open>c\<close>: the highest index in \<open>s[i:j]\<close>, or -1.\<close>
  "py_rfind s c i j =
     (case last_index c (py_slice s i j) of
        None \<Rightarrow> - 1
      | Some k \<Rightarrow> py_index (int (length s)) i + int k)"

section \<open>Chunker: \<open>_chunk_text\<close>\<close>

text \<open>
  The two settings \<open>_chunk_text\<close> reads from \<open>config["intelligence_settings"]\<close>; \<open>None\<close>
  is a key that is absent, for which \<open>.get\<close> gives the default (512 and 50).
\<close>

record intelligence_settings =
  chunk_size :: "int option"
  chunk_overlap :: "int option"

definition window_end :: "int \<Rightarrow> string \<Rightarrow> int \<Rightarrow> int" where
  \<comment> \<open>The value of \<open>end\<close> after the sentence-boundary adjustment of one loop iteration.\<close>
  "window_end csize text start =
     (let text_len = int (length text);
          endp = min (start + csize) text_len
      in if endp < text_len then
           (let last_period = py_rfind text (CHR ''.'') start endp
            in if last_period > start + csize div 2 then last_period + 1 else endp)
         else endp)"

definition next_start :: "int \<Rightarrow> int \<Rightarrow> string \<Rightarrow> int \<Rightarrow> int" where
  \<comment> \<open>\<open>start = max(start + 1, end - chunk_overlap)\<close>\<close>
  "next_start csize overlap text start =
     max (start + 1) (window_end csize text start - overlap)"

definition append_chunk :: "string \<Rightarrow> int \<Rightarrow> int \<Rightarrow> string list \<Rightarrow> string list" where
  \<comment> \<open>\<open>chunk = text[start:end].strip(); if chunk: chunks.append(chunk)\<close>\<close>
  "append_chunk text start endp chunks =
     (let chunk = py_strip (py_slice text start endp)
      in if chunk \<noteq> [] then chunks @ [chunk] else chunks)"

function chunk_loop :: "int \<Rightarrow> int \<Rightarrow> string \<Rightarrow> int \<Rightarrow> string list \<Rightarrow> string list" where
  "chunk_loop csize overlap text start chunks =
     (if start < int (length text) then
        chunk_loop csize overlap text (next_start csize overlap text start)
          (append_chunk text start (window_end csize text start) chunks)
      else chunks)"
  by pat_completeness auto
termination
  by (relation "measure (\<lambda>(csize, overlap, text, start, chunks). nat (int (length text) - start))")
     (auto simp: next_start_def)

definition chunk_text :: "intelligence_settings \<Rightarrow> string \<Rightarrow> string list" where
  "chunk_text cfg text =
     chunk_loop (case chunk_size cfg of None \<Rightarrow> 512 | Some v \<Rightarrow> v)
                (case chunk_overlap cfg of None \<Rightarrow> 50 | Some v \<Rightarrow> v) text 0 []"

function chunk_windows :: "int \<Rightarrow> int \<Rightarrow> string \<Rightarrow> int \<Rightarrow> (int \<times> int) list" where
  "chunk_windows csize overlap text start =
     (if start < int (length text) then
        (start, window_end csize text start) # chunk_windows csize overlap text (next_start csize overlap text start)
      else [])"
  by pat_completeness auto
termination
  by (relation "measure (\<lambda>(csize, overlap, text, start). nat (int (length text) - start))")
     (auto simp: next_start_def)

fun chunk_loop_fuel :: "nat \<Rightarrow> int \<Rightarrow> int \<Rightarrow> string \<Rightarrow> int \<Rightarrow> string list \<Rightarrow> string list option" where
  "chunk_loop_fuel n csize overlap text start chunks =
     (if start < int (length text) then
        (case n of
           0 \<Rightarrow> None
         | Suc m \<Rightarrow> chunk_loop_fuel m csize overlap text (next_start csize overlap text start)
                     (append_chunk text start (window_end csize text start) chunks))
      else Some chunks)"


definition window_chunk :: "string \<Rightarrow> int \<times> int \<Rightarrow> string" where
  "window_chunk text w = py_strip (py_slice text (fst w) (snd w))"

definition chunk_precondition :: "int \<Rightarrow> int \<Rightarrow> bool" where
  \<comment> \<open>The configuration requirement \<open>target_size > overlap >= 0\<close> of the specification.
      \<open>_chunk_text\<close> has no such test; the definition is used to name the configurations
      that violate it.\<close>
  "chunk_precondition target_size overlap = (target_size > overlap \<and> overlap \<ge> 0)"

section \<open>Regular expressions of the privacy detector\<close>

text \<open>
  The patterns of \<open>_init_privacy_detector\<close> are compiled with \<open>re.IGNORECASE\<close> and used
  only through \<open>pattern.search(text)\<close>, whose result is tested for truth. The model
  gives the syntax of the patterns as a datatype and a matcher that returns every
  position at which a match starting at a given position can end; a search succeeds
  when some start position has a match. Every quantifier in the source's patterns
  (\<open>{n}\<close>, \<open>{n,}\<close>, \<open>?\<close>, \<open>+\<close>, \<open>*\<close>) applies to a single-character item, and so does
  \<open>Rep\<close>.
\<close>

definition py_lower :: "char \<Rightarrow> char" where
  \<comment> \<open>\<open>str.lower\<close> on one character: A-Z, and the capitals 192-222 except 215.\<close>
  "py_lower c = (let n = (of_char c :: int) in
     if (65 \<le> n \<and> n \<le> 90) \<or> (192 \<le> n \<and> n \<le> 222 \<and> n \<noteq> 215) then char_of (n + 32) else c)"

definition py_upper :: "char \<Rightarrow> char" where
  \<comment> \<open>The capital of a small letter when it is a character below 256, else the character.\<close>
  "py_upper c = (let n = (of_char c :: int) in
     if (97 \<le> n \<and> n \<le> 122) \<or> (224 \<le> n \<and> n \<le> 254 \<and> n \<noteq> 247) then char_of (n - 32) else c)"

definition is_word_char :: "char \<Rightarrow> bool" where
  \<comment> \<open>\<open>\w\<close>: alphanumeric (\<open>str.isalnum\<close>) or the underscore.\<close>
  "is_word_char c = (let n = (of_char c :: int) in
     (48 \<le> n \<and> n \<le> 57) \<or> (65 \<le> n \<and> n \<le> 90) \<or> n = 95 \<or> (97 \<le> n \<and> n \<le> 122)
     \<or> n = 170 \<or> n = 178 \<or> n = 179 \<or> n = 181 \<or> n = 185 \<or> n = 186
     \<or> (188 \<le> n \<and> n \<le> 190) \<or> (192 \<le> n \<and> n \<le> 214) \<or> (216 \<le> n \<and> n \<le> 246)
     \<or> (248 \<le> n \<and> n \<le> 255))"

definition is_digit :: "char \<Rightarrow> bool" where
  \<comment> \<open>\<open>\d\<close>: a decimal digit.\<close>
  "is_digit c = (let n = (of_char c :: int) in 48 \<le> n \<and> n \<le> 57)"

datatype cset_item =
    CChar char            \<comment> \<open>one character of a set\<close>
  | CRange char char      \<comment> \<open>\<open>a-z\<close>\<close>
  | CDigit                \<comment> \<open>\<open>\d\<close>\<close>
  | CSpace                \<comment> \<open>\<open>\s\<close>\<close>

datatype atom =
    ALit char             \<comment> \<open>a literal character\<close>
  | ADot                  \<comment> \<open>\<open>.\<close>: any character but the newline\<close>
  | ASet "cset_item list" \<comment> \<open>\<open>[...]\<close>, and \<open>\d\<close> as \<open>ASet [CDigit]\<close>\<close>

datatype regex =
    Eps
  | Atom atom
  | WordB                 \<comment> \<open>\<open>\b\<close>\<close>
  | Seq regex regex
  | Alt regex regex       \<comment> \<open>\<open>r|s\<close>\<close>
  | Rep atom nat "nat option"  \<comment> \<open>\<open>a{lo,hi}\<close>; \<open>None\<close> is no upper bound\<close>

fun item_has :: "cset_item \<Rightarrow> char \<Rightarrow> bool" where
  "item_has (CChar x) c = (c = x)"
| "item_has (CRange x y) c = ((of_char x :: int) \<le> of_char c \<and> (of_char c :: int) \<le> of_char y)"
| "item_has CDigit c = is_digit c"
| "item_has CSpace c = is_space c"

fun atom_match :: "atom \<Rightarrow> char \<Rightarrow> bool" where
  \<comment> \<open>Matching one character, ignoring case.\<close>
  "atom_match (ALit x) c = (if c = x then True else if py_lower c = x then True else py_upper c = x)"
| "atom_match ADot c = (c \<noteq> CHR 0x0A)"
| "atom_match (ASet items) c =
     list_ex (\<lambda>it. item_has it c \<or> item_has it (py_lower c) \<or> item_has it (py_upper c)) items"

definition at_boundary :: "char option \<Rightarrow> string \<Rightarrow> bool" where
  \<comment> \<open>\<open>\b\<close> between the character before the position (if any) and the rest of the text.\<close>
  "at_boundary p s =
     ((case p of None \<Rightarrow> False | Some c \<Rightarrow> is_word_char c)
        \<noteq> (case s of [] \<Rightarrow> False | c # _ \<Rightarrow> is_word_char c))"

type_synonym pos = "char option \<times> string"

fun rep_match :: "atom \<Rightarrow> nat \<Rightarrow> nat option \<Rightarrow> char option \<Rightarrow> string \<Rightarrow> pos list" where
  "rep_match a lo hi p [] = (if lo = 0 then [(p, [])] else [])"
| "rep_match a lo hi p (c # cs) =
     (if hi \<noteq> Some 0 \<and> atom_match a c
      then rep_match a (lo - 1) (map_option (\<lambda>h. h - 1) hi) (Some c) cs
      else [])
     @ (if lo = 0 then [(p, c # cs)] else [])"

fun rx_match :: "regex \<Rightarrow> pos \<Rightarrow> pos list" where
  \<comment> \<open>The positions at which a match of the expression that starts at the given position ends.\<close>
  "rx_match Eps q = [q]"
| "rx_match (Atom a) (p, []) = []"
| "rx_match (Atom a) (p, c # cs) = (if atom_match a c then [(Some c, cs)] else [])"
| "rx_match WordB (p, s) = (if at_boundary p s then [(p, s)] else [])"
| "rx_match (Seq r1 r2) q = concat (map (rx_match r2) (rx_match r1 q))"
| "rx_match (Alt r1 r2) q = rx_match r1 q @ rx_match r2 q"
| "rx_match (Rep a lo hi) (p, s) = rep_match a lo hi p s"

fun search_from :: "regex \<Rightarrow> char option \<Rightarrow> string \<Rightarrow> bool" where
  "search_from r p [] = (rx_match r (p, []) \<noteq> [])"
| "search_from r p (c # cs) = (rx_match r (p, c # cs) \<noteq> [] \<or> search_from r (Some c) cs)"

definition search :: "regex \<Rightarrow> string \<Rightarrow> bool" where
  \<comment> \<open>The truth value of \<open>pattern.search(text)\<close>.\<close>
  "search r text = search_from r None text"

fun lits :: "string \<Rightarrow> regex" where
  \<comment> \<open>A run of literal characters.\<close>
  "lits [] = Eps"
| "lits [c] = Atom (ALit c)"
| "lits (c # cs) = Seq (Atom (ALit c)) (lits cs)"

fun seqs :: "regex list \<Rightarrow> regex" where
  "seqs [] = Eps"
| "seqs [r] = r"
| "seqs (r # rs) = Seq r (seqs rs)"

definition digits :: "nat \<Rightarrow> regex" where
  \<comment> \<open>\<open>\d{n}\<close>\<close>
  "digits n = Rep (ASet [CDigit]) n (Some n)"

definition opt :: "atom \<Rightarrow> regex" where
  \<comment> \<open>\<open>a?\<close>\<close>
  "opt a = Rep a 0 (Some 1)"

definition personal_patterns :: "regex list" where
  \<comment> \<open>In the order of the source:
      \<open>\b\d{3}-\d{2}-\d{4}\b\<close>
      \<open>\b[A-Za-z0-9._%+-]+@[A-Za-z0-9.-]+\.[A-Z|a-z]{2,}\b\<close>
      \<open>\b\d{4}[-\s]?\d{4}[-\s]?\d{4}[-\s]?\d{4}\b\<close>
      \<open>\bpassword|secret|private key|confidential\b\<close>
      \<open>\bphone.*\d{3}[-.]?\d{3}[-.]?\d{4}\b\<close>
  \<close>
  "personal_patterns =
    [ seqs [WordB, digits 3, lits ''-'', digits 2, lits ''-'', digits 4, WordB],
      seqs [WordB,
            Rep (ASet [CRange CHR ''A'' CHR ''Z'', CRange CHR ''a'' CHR ''z'', CRange CHR ''0'' CHR ''9'',
                       CChar CHR ''.'', CChar CHR ''_'', CChar CHR ''%'', CChar CHR ''+'', CChar CHR ''-'']) 1 None,
            lits ''@'',
            Rep (ASet [CRange CHR ''A'' CHR ''Z'', CRange CHR ''a'' CHR ''z'', CRange CHR ''0'' CHR ''9'',
                       CChar CHR ''.'', CChar CHR ''-'']) 1 None,
            lits ''.'',
            Rep (ASet [CRange CHR ''A'' CHR ''Z'', CChar CHR ''|'', CRange CHR ''a'' CHR ''z'']) 2 None,
            WordB],
      seqs [WordB, digits 4, opt (ASet [CChar CHR ''-'', CSpace]), digits 4,
            opt (ASet [CChar CHR ''-'', CSpace]), digits 4,
            opt (ASet [CChar CHR ''-'', CSpace]), digits 4, WordB],
      Alt (Seq WordB (lits ''password''))
        (Alt (lits ''secret'')
          (Alt (lits ''private key'')
               (Seq (lits ''confidential'') WordB))),
      seqs [WordB, lits ''phone'', Rep ADot 0 None, digits 3,
            opt (ASet [CChar CHR ''-'', CChar CHR ''.'']), digits 3,
            opt (ASet [CChar CHR ''-'', CChar CHR ''.'']), digits 4, WordB] ]"

definition business_patterns :: "regex list" where
  \<comment> \<open>In the order of the source:
      \<open>\bconfidential|proprietary|internal only\b\<close>
      \<open>\bapi[_\s]key|access[_\s]token\b\<close>
      \<open>\bclient|customer|revenue|profit\b\<close>
      \<open>\bcontract|agreement|deal\b\<close>
  \<close>
  "business_patterns =
    [ Alt (Seq WordB (lits ''confidential''))
        (Alt (lits ''proprietary'')
             (Seq (lits ''internal only'') WordB)),
      Alt (seqs [WordB, lits ''api'', Atom (ASet [CChar CHR ''_'', CSpace]), lits ''key''])
          (seqs [lits ''access'', Atom (ASet [CChar CHR ''_'', CSpace]), lits ''token'', WordB]),
      Alt (Seq WordB (lits ''client''))
        (Alt (lits ''customer'')
          (Alt (lits ''revenue'')
               (Seq (lits ''profit'') WordB))),
      Alt (Seq WordB (lits ''contract''))
        (Alt (lits ''agreement'')
             (Seq (lits ''deal'') WordB)) ]"

section \<open>The intelligence engine\<close>

subsection \<open>Data model\<close>

datatype PrivacyTier = PUBLIC | BUSINESS | PERSONAL

fun tier_value :: "PrivacyTier \<Rightarrow> string" where
  "tier_value PUBLIC = ''tier1_public_transferable_safe_for_sharing''"
| "tier_value BUSINESS = ''tier2_business_confidential_requires_abstraction''"
| "tier_value PERSONAL = ''tier3_personal_private_explicit_consent_required''"

datatype error =
    FileNotFoundError   \<comment> \<open>\<open>stat\<close> of a path that does not exist\<close>
  | TypeError           \<comment> \<open>calling \<open>nlp_pipeline\<close> while it is \<open>None\<close>\<close>
  | KeyError            \<comment> \<open>\<open>self.collections[tier]\<close> without that key\<close>
  | IndexError          \<comment> \<open>an index past the end of a result array\<close>
  | AttributeError      \<comment> \<open>an attribute the embedding model does not have\<close>
  | EmbeddingError      \<comment> \<open>raised by the embedding model\<close>
  | StoreError          \<comment> \<open>raised by a collection\<close>
  | ValueError          \<comment> \<open>raised by \<open>collection.add\<close> for a batch with no ids\<close>

record processing_stats =
  documents_processed :: int
  embeddings_created :: int
  queries_executed :: int
  tier1 :: int
  tier2 :: int
  tier3 :: int

record DocumentMetadata =
  file_path :: string
  content_hash :: string
  privacy_tier :: PrivacyTier
  file_type :: string
  size_bytes :: int
  processed_timestamp :: string
  embedding_model :: string
  chunk_count :: int
  language :: string
  sentiment_score :: int
  topics :: "string list"
  entities :: "(string \<times> string list) list"
  vault_location :: "string option"
  obsidian_links :: "string list"

record path =
  path_str :: string   \<comment> \<open>\<open>str(file_path)\<close>\<close>
  suffix :: string     \<comment> \<open>\<open>file_path.suffix\<close>\<close>

record file_data =
  st_size :: int
  utf8_text :: "string option"            \<comment> \<open>\<open>read_text(encoding='utf-8')\<close>; \<open>None\<close> when it raises\<close>
  pdf_pages :: "string list option"       \<comment> \<open>\<open>extract_text()\<close> of each page; \<open>None\<close> when pypdf raises\<close>
  docx_paragraphs :: "string list option" \<comment> \<open>the paragraph texts; \<open>None\<close> when docx raises\<close>
  docling_text :: "string option"         \<comment> \<open>\<open>export_to_text()\<close>; \<open>None\<close> when docling raises\<close>

record chunk_meta =
  source_file :: string
  chunk_index :: nat
  meta_privacy_tier :: string
  meta_processed_timestamp :: string
  meta_content_hash :: string

record 'v add_request =
  embeddings :: "'v list"
  documents :: "string list"
  ids :: "string list"
  metadatas :: "chunk_meta list"

record 'd query_result =
  qr_documents :: "string list list"
  qr_metadatas :: "chunk_meta list list"
  qr_distances :: "'d list list"
  qr_ids :: "string list list"

record 'd search_result =
  document :: string
  metadata :: chunk_meta
  distance :: 'd
  result_id :: string

datatype ext_call =
    CallEncode "string list"            \<comment> \<open>\<open>embedding_model.encode(texts)\<close>\<close>
  | CallAdd PrivacyTier "string list"   \<comment> \<open>\<open>collection.add\<close> on a tier's collection, with these ids\<close>
  | CallQuery PrivacyTier int           \<comment> \<open>\<open>collection.query\<close> on a tier's collection, with \<open>n_results\<close>\<close>

text \<open>
  What the engine reaches outside of its own code: the files, the embedding model,
  the collections of the vector store, the hash function, the clock and the iteration
  order of a Python set. A call that can raise returns \<open>error + 'a\<close>. The collection
  state \<open>'c\<close>, the embedding vectors \<open>'v\<close> and the distances \<open>'d\<close> are left abstract.
\<close>

record ('c, 'v, 'd) externals =
  files :: "string \<rightharpoonup> file_data"
  sha256_hex :: "string \<Rightarrow> string"
  encode :: "string list \<Rightarrow> error + 'v list"
  model_name :: "error + string"
  coll_add :: "'c \<Rightarrow> 'v add_request \<Rightarrow> error + 'c"
  coll_query :: "'c \<Rightarrow> 'v list \<Rightarrow> int \<Rightarrow> error + 'd query_result"
  now_isoformat :: string
  set_rank :: "string \<Rightarrow> nat"

record 'c engine =
  config :: intelligence_settings
  compiled_patterns :: "PrivacyTier \<rightharpoonup> regex list"
  nlp_pipeline :: "(string \<Rightarrow> (string \<times> string) list) option"
    \<comment> \<open>the entities \<open>(label_, text)\<close> of \<open>doc.ents\<close> for a text\<close>
  collections :: "PrivacyTier \<rightharpoonup> 'c"
  stats :: processing_stats
  calls :: "ext_call list"
    \<comment> \<open>not a field of the source: the calls made so far to the embedding model and to
        the collections, oldest first\<close>

definition init_privacy_detector :: "PrivacyTier \<rightharpoonup> regex list" where
  \<comment> \<open>\<open>self.compiled_patterns\<close> after \<open>_init_privacy_detector\<close>\<close>
  "init_privacy_detector = [PERSONAL \<mapsto> personal_patterns, BUSINESS \<mapsto> business_patterns]"

subsection \<open>\<open>classify_privacy_tier\<close>\<close>

definition patterns_of :: "'c engine \<Rightarrow> PrivacyTier \<Rightarrow> regex list" where
  \<comment> \<open>\<open>self.compiled_patterns.get(tier, [])\<close>\<close>
  "patterns_of eng tier = (case compiled_patterns eng tier of None \<Rightarrow> [] | Some ps \<Rightarrow> ps)"

definition sensitive_entities :: "string list" where
  "sensitive_entities = [''PERSON'', ''ORG'', ''GPE'', ''MONEY'', ''DATE'']"

definition classify_privacy_tier :: "'c engine \<Rightarrow> string \<Rightarrow> PrivacyTier \<times> 'c engine" where
  "classify_privacy_tier eng text =
     (if list_ex (\<lambda>pattern. search pattern text) (patterns_of eng PERSONAL) then
        (PERSONAL, eng\<lparr>stats := (stats eng)\<lparr>tier3 := tier3 (stats eng) + 1\<rparr>\<rparr>)
      else if list_ex (\<lambda>pattern. search pattern text) (patterns_of eng BUSINESS) then
        (BUSINESS, eng\<lparr>stats := (stats eng)\<lparr>tier2 := tier2 (stats eng) + 1\<rparr>\<rparr>)
      else
        (case nlp_pipeline eng of
           Some nlp \<Rightarrow>
             (let doc = nlp (take 1000 text);
                  entity_count = length (filter (\<lambda>ent. fst ent \<in> set sensitive_entities) doc)
              in if entity_count > 5 then
                   (BUSINESS, eng\<lparr>stats := (stats eng)\<lparr>tier2 := tier2 (stats eng) + 1\<rparr>\<rparr>)
                 else (PUBLIC, eng\<lparr>stats := (stats eng)\<lparr>tier1 := tier1 (stats eng) + 1\<rparr>\<rparr>))
         | None \<Rightarrow> (PUBLIC, eng\<lparr>stats := (stats eng)\<lparr>tier1 := tier1 (stats eng) + 1\<rparr>\<rparr>)))"

subsection \<open>\<open>_extract_obsidian_links\<close>\<close>

fun link_at :: "string \<Rightarrow> (string \<times> string) option" where
  \<comment> \<open>A match of \<open>\[\[([^\]]+)\]\]\<close> at the head of the text: the group and the text after
      the match. The group is the whole run of characters other than \<open>]\<close>, since the
      run must be followed by \<open>]]\<close>.\<close>
  "link_at (a # b # rest) =
     (if a = CHR ''['' \<and> b = CHR ''['' then
        (let body = takeWhile (\<lambda>c. c \<noteq> CHR '']'') rest;
             after = dropWhile (\<lambda>c. c \<noteq> CHR '']'') rest
         in if body \<noteq> [] \<and> take 2 after = '']]'' then Some (body, drop 2 after) else None)
      else None)"
| "link_at _ = None"

function findall_links :: "string \<Rightarrow> string list" where
  \<comment> \<open>\<open>re.findall(link_pattern, text)\<close>: the groups of the matches, left to right,
      each search resuming after the previous match.\<close>
  "findall_links [] = []"
| "findall_links (c # cs) =
     (case link_at (c # cs) of
        Some (body, rest) \<Rightarrow> body # findall_links rest
      | None \<Rightarrow> findall_links cs)"
  by pat_completeness auto
termination
proof (relation "measure length")
  show "wf (measure length)" by simp
next
  fix c :: char and cs x2 x y
  assume "link_at (c # cs) = Some x2" and "(x, y) = x2"
  then have "link_at (c # cs) = Some (x, y)" by simp
  then have "length y < length (c # cs)"
  proof (cases cs)
    case Nil
    assume "link_at (c # cs) = Some (x, y)"
    with Nil show ?thesis by simp
  next
    case (Cons b rest)
    assume h: "link_at (c # cs) = Some (x, y)"
    have "length (dropWhile (\<lambda>c. c \<noteq> CHR '']'') rest) \<le> length rest"
      by (rule length_dropWhile_le)
    with h Cons show ?thesis
      by (auto simp: Let_def split: if_splits)
  qed
  then show "(y, c # cs) \<in> measure length" by simp
next
  fix c :: char and cs
  show "(cs, c # cs) \<in> measure length" by simp
qed

definition py_list_set :: "('a \<Rightarrow> nat) \<Rightarrow> 'a list \<Rightarrow> 'a list" where
  \<comment> \<open>\<open>list(set(xs))\<close>: the distinct elements, in the iteration order of the set, which
      is given by a rank of the elements.\<close>
  "py_list_set rank xs = sort_key rank (remdups xs)"

definition extract_obsidian_links :: "(string \<Rightarrow> nat) \<Rightarrow> string \<Rightarrow> string list" where
  "extract_obsidian_links rank text = py_list_set rank (findall_links text)"

subsection \<open>Text extraction\<close>

definition extract_pdf_text :: "(string \<rightharpoonup> file_data) \<Rightarrow> path \<Rightarrow> string" where
  "extract_pdf_text fs p =
     (case fs (path_str p) of
        None \<Rightarrow> []
      | Some f \<Rightarrow> (case pdf_pages f of
                     None \<Rightarrow> []
                   | Some pages \<Rightarrow> concat (map (\<lambda>page. page @ [CHR 0x0A]) pages)))"

definition extract_docx_text :: "(string \<rightharpoonup> file_data) \<Rightarrow> path \<Rightarrow> string" where
  "extract_docx_text fs p =
     (case fs (path_str p) of
        None \<Rightarrow> []
      | Some f \<Rightarrow> (case docx_paragraphs f of
                     None \<Rightarrow> []
                   | Some paragraphs \<Rightarrow> concat (map (\<lambda>paragraph. paragraph @ [CHR 0x0A]) paragraphs)))"

definition extract_text_content :: "(string \<rightharpoonup> file_data) \<Rightarrow> path \<Rightarrow> string" where
  \<comment> \<open>Every exception of the extraction is caught and gives the empty string.\<close>
  "extract_text_content fs p =
     (let file_ext = map py_lower (suffix p) in
      if file_ext = ''.pdf'' then extract_pdf_text fs p
      else if file_ext \<in> set [''.docx'', ''.doc''] then extract_docx_text fs p
      else if file_ext \<in> set [''.txt'', ''.md''] then
        (case fs (path_str p) of
           None \<Rightarrow> []
         | Some f \<Rightarrow> (case utf8_text f of None \<Rightarrow> [] | Some t \<Rightarrow> t))
      else
        (case fs (path_str p) of
           None \<Rightarrow> []
         | Some f \<Rightarrow> (case docling_text f of None \<Rightarrow> [] | Some t \<Rightarrow> t)))"

subsection \<open>\<open>process_document\<close>\<close>

function str_nat :: "nat \<Rightarrow> string" where
  \<comment> \<open>\<open>str(i)\<close> for a natural number\<close>
  "str_nat n = (if n < 10 then [char_of (48 + n)] else str_nat (n div 10) @ [char_of (48 + n mod 10)])"
  by pat_completeness auto
termination
  by (relation "measure id") auto

fun add_entity :: "(string \<times> string list) list \<Rightarrow> string \<times> string \<Rightarrow> (string \<times> string list) list" where
  \<comment> \<open>\<open>if label not in entities: entities[label] = []\<close>, then
      \<open>entities[label].append(text)\<close>; the dict as an association list in insertion order\<close>
  "add_entity [] (label, t) = [(label, [t])]"
| "add_entity ((k, ts) # es) (label, t) =
     (if k = label then (k, ts @ [t]) # es else (k, ts) # add_entity es (label, t))"

definition chunk_metadatas :: "path \<Rightarrow> PrivacyTier \<Rightarrow> string \<Rightarrow> string \<Rightarrow> nat \<Rightarrow> chunk_meta list" where
  "chunk_metadatas p tier stamp hash n =
     map (\<lambda>i. \<lparr>source_file = path_str p, chunk_index = i, meta_privacy_tier = tier_value tier,
               meta_processed_timestamp = stamp, meta_content_hash = hash\<rparr>) [0..<n]"

definition process_document ::
  "('c, 'v, 'd) externals \<Rightarrow> 'c engine \<Rightarrow> path \<Rightarrow> string option \<Rightarrow> (error + DocumentMetadata) \<times> 'c engine"
where
  \<comment> \<open>The result is the value returned or the exception raised, with the engine as the
      call leaves it.\<close>
  "process_document ext eng p vault =
     (let text_content = extract_text_content (files ext) p;
          hash = sha256_hex ext text_content;
          (tier, eng1) = classify_privacy_tier eng text_content
      in case nlp_pipeline eng1 of
           None \<Rightarrow> (Inl TypeError, eng1)
         | Some nlp \<Rightarrow>
      (let doc = nlp (take 5000 text_content);
           ents = foldl add_entity [] doc;
           chunks = chunk_text (config eng1) text_content;
           eng2 = eng1\<lparr>calls := calls eng1 @ [CallEncode chunks]\<rparr>
       in case encode ext chunks of
            Inl e \<Rightarrow> (Inl e, eng2)
          | Inr embs \<Rightarrow>
       (case collections eng2 tier of
            None \<Rightarrow> (Inl KeyError, eng2)
          | Some collection \<Rightarrow>
       (let chunk_ids = map (\<lambda>i. hash @ ''_'' @ str_nat i) [0..<length chunks];
            eng3 = eng2\<lparr>calls := calls eng2 @ [CallAdd tier chunk_ids]\<rparr>
        in case coll_add ext collection
                  \<lparr>embeddings = embs, documents = chunks, ids = chunk_ids,
                   metadatas = chunk_metadatas p tier (now_isoformat ext) hash (length chunks)\<rparr> of
             Inl e \<Rightarrow> (Inl e, eng3)
           | Inr collection' \<Rightarrow>
        (let eng4 = eng3\<lparr>collections := (collections eng3)(tier \<mapsto> collection')\<rparr>;
             links = (if vault \<noteq> None \<and> vault \<noteq> Some []
                      then extract_obsidian_links (set_rank ext) text_content else [])
         in case files ext (path_str p) of
              None \<Rightarrow> (Inl FileNotFoundError, eng4)
            | Some f \<Rightarrow>
         (case model_name ext of
              Inl e \<Rightarrow> (Inl e, eng4)
            | Inr name \<Rightarrow>
           (Inr \<lparr>file_path = path_str p, content_hash = hash, privacy_tier = tier,
                 file_type = map py_lower (suffix p), size_bytes = st_size f,
                 processed_timestamp = now_isoformat ext, embedding_model = name,
                 chunk_count = int (length chunks), language = ''en'', sentiment_score = 0,
                 topics = [''general''], entities = ents, vault_location = vault,
                 obsidian_links = links\<rparr>,
            eng4\<lparr>stats := (stats eng4)\<lparr>
                    documents_processed := documents_processed (stats eng4) + 1,
                    embeddings_created := embeddings_created (stats eng4) + int (length chunks)\<rparr>\<rparr>)))))))"

subsection \<open>\<open>semantic_search\<close>\<close>

definition py_get :: "'a list \<Rightarrow> nat \<Rightarrow> error + 'a" where
  \<comment> \<open>\<open>xs[i]\<close> for \<open>i >= 0\<close>\<close>
  "py_get xs i = (if i < length xs then Inr (xs ! i) else Inl IndexError)"

definition bind_err :: "error + 'a \<Rightarrow> ('a \<Rightarrow> error + 'b) \<Rightarrow> error + 'b" where
  "bind_err x f = (case x of Inl e \<Rightarrow> Inl e | Inr v \<Rightarrow> f v)"

fun collect_results ::
  "'d query_result \<Rightarrow> nat \<Rightarrow> string list \<Rightarrow> 'd search_result list \<Rightarrow> error + 'd search_result list"
where
  \<comment> \<open>\<open>for i, doc in enumerate(docs): results.append({...})\<close>\<close>
  "collect_results sr i [] results = Inr results"
| "collect_results sr i (doc # docs) results =
     bind_err (bind_err (py_get (qr_metadatas sr) 0) (\<lambda>ms. py_get ms i)) (\<lambda>m.
     bind_err (bind_err (py_get (qr_distances sr) 0) (\<lambda>ds. py_get ds i)) (\<lambda>d.
     bind_err (bind_err (py_get (qr_ids sr) 0) (\<lambda>is. py_get is i)) (\<lambda>ident.
       collect_results sr (Suc i) docs
         (results @ [\<lparr>document = doc, metadata = m, distance = d, result_id = ident\<rparr>]))))"

fun search_collections ::
  "('c, 'v, 'd) externals \<Rightarrow> 'v list \<Rightarrow> int \<Rightarrow> (PrivacyTier \<times> 'c) list \<Rightarrow> ext_call list
     \<Rightarrow> 'd search_result list \<Rightarrow> (error + 'd search_result list) \<times> ext_call list"
where
  \<comment> \<open>\<open>for collection in collections_to_search\<close>\<close>
  "search_collections ext qe limit [] log results = (Inr results, log)"
| "search_collections ext qe limit ((tier, collection) # rest) log results =
     (let n_results = min limit 100;
          log' = log @ [CallQuery tier n_results]
      in case coll_query ext collection qe n_results of
           Inl e \<Rightarrow> (Inl e, log')
         | Inr sr \<Rightarrow>
             (case bind_err (py_get (qr_documents sr) 0) (\<lambda>docs. collect_results sr 0 docs results) of
                Inl e \<Rightarrow> (Inl e, log')
              | Inr results' \<Rightarrow> search_collections ext qe limit rest log' results'))"

definition collection_values :: "'c engine \<Rightarrow> (PrivacyTier \<times> 'c) list" where
  \<comment> \<open>\<open>list(self.collections.values())\<close>, in the order \<open>_init_chromadb\<close> inserts the tiers\<close>
  "collection_values eng =
     concat (map (\<lambda>tier. case collections eng tier of None \<Rightarrow> [] | Some c \<Rightarrow> [(tier, c)])
                 [PUBLIC, BUSINESS, PERSONAL])"

definition collections_to_search ::
  "'c engine \<Rightarrow> PrivacyTier option \<Rightarrow> error + (PrivacyTier \<times> 'c) list" where
  \<comment> \<open>\<open>[self.collections[privacy_tier]]\<close> when a tier is given, else all collections\<close>
  "collections_to_search eng tier_filter =
     (case tier_filter of
        Some tier \<Rightarrow> (case collections eng tier of
                        None \<Rightarrow> Inl KeyError
                      | Some c \<Rightarrow> Inr [(tier, c)])
      | None \<Rightarrow> Inr (collection_values eng))"

definition semantic_search ::
  "('c, 'v, 'd::linorder) externals \<Rightarrow> 'c engine \<Rightarrow> string \<Rightarrow> PrivacyTier option \<Rightarrow> int
     \<Rightarrow> (error + 'd search_result list) \<times> 'c engine"
where
  "semantic_search ext eng query tier_filter limit =
     (let eng1 = eng\<lparr>calls := calls eng @ [CallEncode [query]]\<rparr>
      in case encode ext [query] of
           Inl e \<Rightarrow> (Inl e, eng1)
         | Inr query_embedding \<Rightarrow>
      (case collections_to_search eng1 tier_filter of
         Inl e \<Rightarrow> (Inl e, eng1)
       | Inr colls \<Rightarrow>
      (case search_collections ext query_embedding limit colls (calls eng1) [] of
         (Inl e, log) \<Rightarrow> (Inl e, eng1\<lparr>calls := log\<rparr>)
       | (Inr results, log) \<Rightarrow>
           (Inr (py_slice (sort_key distance results) 0 limit),
            eng1\<lparr>calls := log,
                 stats := (stats eng1)\<lparr>queries_executed := queries_executed (stats eng1) + 1\<rparr>\<rparr>))))"

definition tier_results ::
  "('c, 'v, 'd) externals \<Rightarrow> 'v list \<Rightarrow> int \<Rightarrow> 'c \<Rightarrow> error + 'd search_result list" where
  \<comment> \<open>The result list of one collection: one pass of the loop of \<open>semantic_search\<close>
      started with no results.\<close>
  "tier_results ext qe limit collection =
     bind_err (coll_query ext collection qe (min limit 100)) (\<lambda>sr.
     bind_err (py_get (qr_documents sr) 0) (\<lambda>docs. collect_results sr 0 docs []))"

fun all_tier_results ::
  "('c, 'v, 'd) externals \<Rightarrow> 'v list \<Rightarrow> int \<Rightarrow> (PrivacyTier \<times> 'c) list
     \<Rightarrow> error + 'd search_result list list" where
  \<comment> \<open>The result lists of the collections in order; the first error ends the search.\<close>
  "all_tier_results ext qe limit [] = Inr []"
| "all_tier_results ext qe limit (tc # rest) =
     bind_err (tier_results ext qe limit (snd tc)) (\<lambda>l.
     bind_err (all_tier_results ext qe limit rest) (\<lambda>ls. Inr (l # ls)))"

section \<open>A small concrete environment\<close>

text \<open>
  A concrete instance of the externals, used to run the model on explicit inputs: an
  embedding is the length of the text, a collection is the list of its rows
  \<open>(id, document, embedding)\<close>, the distance of a row to a query is the difference of
  the embeddings, a query for fewer than one result is refused by the store, an \<open>add\<close>
  with no ids is refused with a \<open>ValueError\<close>, and an \<open>add\<close> leaves out the rows whose
  id the collection already has.
\<close>

type_synonym demo_collection = "(string \<times> string \<times> nat) list"

definition demo_meta :: "string \<Rightarrow> chunk_meta" where
  "demo_meta ident = \<lparr>source_file = ''/doc.txt'', chunk_index = 0, meta_privacy_tier = [],
                      meta_processed_timestamp = [], meta_content_hash = ident\<rparr>"

definition demo_distance :: "nat \<Rightarrow> string \<times> string \<times> nat \<Rightarrow> int" where
  "demo_distance q row = abs (int (snd (snd row)) - int q)"

definition demo_query :: "demo_collection \<Rightarrow> nat list \<Rightarrow> int \<Rightarrow> error + int query_result" where
  "demo_query c qe n =
     (case qe of
        [] \<Rightarrow> Inl StoreError
      | q # _ \<Rightarrow>
          if n \<le> 0 then Inl StoreError
          else (let rows = take (nat n) (sort_key (demo_distance q) c)
                in Inr \<lparr>qr_documents = [map (\<lambda>r. fst (snd r)) rows],
                        qr_metadatas = [map (\<lambda>r. demo_meta (fst r)) rows],
                        qr_distances = [map (demo_distance q) rows],
                        qr_ids = [map fst rows]\<rparr>))"

definition demo_add :: "demo_collection \<Rightarrow> nat add_request \<Rightarrow> error + demo_collection" where
  "demo_add c req =
     (if ids req = [] then Inl ValueError
      else Inr (c @ filter (\<lambda>row. fst row \<notin> set (map fst c))
                      (zip (ids req) (zip (documents req) (embeddings req)))))"

definition demo_externals :: "(demo_collection, nat, int) externals" where
  "demo_externals =
     \<lparr>files = [''/empty.txt'' \<mapsto> \<lparr>st_size = 0, utf8_text = Some [], pdf_pages = None,
                                  docx_paragraphs = None, docling_text = None\<rparr>,
               ''/note.md'' \<mapsto> \<lparr>st_size = 17, utf8_text = Some ''[[b]] [[a]] [[b]]'',
                                pdf_pages = None, docx_paragraphs = None, docling_text = None\<rparr>],
      sha256_hex = (\<lambda>t. ''h'' @ str_nat (length t)),
      encode = (\<lambda>ts. Inr (map length ts)),
      model_name = Inr ''all-MiniLM-L6-v2'',
      coll_add = demo_add,
      coll_query = demo_query,
      now_isoformat = ''2024-01-01T00:00:00'',
      set_rank = length\<rparr>"

definition demo_engine :: "demo_collection engine" where
  "demo_engine =
     \<lparr>config = \<lparr>chunk_size = Some 512, chunk_overlap = Some 50\<rparr>,
      compiled_patterns = init_privacy_detector,
      nlp_pipeline = Some (\<lambda>t. []),
      collections = [PUBLIC \<mapsto> [(''a_0'', ''aaaa'', 4), (''b_0'', ''bb'', 2)],
                     BUSINESS \<mapsto> [(''c_0'', ''cccc'', 4)],
                     PERSONAL \<mapsto> []],
      stats = \<lparr>documents_processed = 0, embeddings_created = 0, queries_executed = 0,
               tier1 = 0, tier2 = 0, tier3 = 0\<rparr>,
      calls = []\<rparr>"



section \<open>Properties of the chunker\<close>

declare chunk_loop.simps [simp del] chunk_windows.simps [simp del] chunk_loop_fuel.simps [simp del]

lemma window_chunk_pair [simp]: "window_chunk t (s, e) = py_strip (py_slice t s e)"
  by (simp add: window_chunk_def)

lemma next_start_gt: "start < next_start csize overlap t start"
  by (simp add: next_start_def)

lemma chunk_loop_windows:
  "chunk_loop csize overlap t start chunks =
     chunks @ filter (\<lambda>c. c \<noteq> []) (map (window_chunk t) (chunk_windows csize overlap t start))"
proof (induction csize overlap t start chunks rule: chunk_loop.induct)
  case (1 csize overlap t start chunks)
  show ?case
  proof (cases "start < int (length t)")
    case True
    then show ?thesis
      using "1.IH" [OF True]
      by (subst chunk_loop.simps, subst chunk_windows.simps)
         (simp add: append_chunk_def Let_def)
  next
    case False
    then show ?thesis
      by (subst chunk_loop.simps, subst chunk_windows.simps) simp
  qed
qed

lemma chunk_loop_fuel_enough:
  "nat (int (length t) - start) \<le> n \<Longrightarrow>
   chunk_loop_fuel n csize overlap t start chunks = Some (chunk_loop csize overlap t start chunks)"
proof (induction n arbitrary: start chunks)
  case 0
  then show ?case
    by (subst chunk_loop_fuel.simps, subst chunk_loop.simps) simp
next
  case (Suc n)
  show ?case
  proof (cases "start < int (length t)")
    case True
    have "nat (int (length t) - next_start csize overlap t start) \<le> n"
      using Suc.prems True next_start_gt [of start csize overlap t] by linarith
    then show ?thesis
      using True Suc.IH
      by (subst chunk_loop_fuel.simps, subst chunk_loop.simps) simp
  next
    case False
    then show ?thesis
      by (subst chunk_loop_fuel.simps, subst chunk_loop.simps) simp
  qed
qed

lemma length_chunk_windows:
  "0 \<le> start \<Longrightarrow> int (length (chunk_windows csize overlap t start)) \<le> max 0 (int (length t) - start)"
proof (induction csize overlap t start rule: chunk_windows.induct)
  case (1 csize overlap t start)
  show ?case
  proof (cases "start < int (length t)")
    case True
    have "0 \<le> next_start csize overlap t start"
      using "1.prems" next_start_gt [of start csize overlap t] by linarith
    from "1.IH" [OF True this]
    have "int (length (chunk_windows csize overlap t (next_start csize overlap t start)))
            \<le> max 0 (int (length t) - next_start csize overlap t start)" .
    moreover have "chunk_windows csize overlap t start =
        (start, window_end csize t start) # chunk_windows csize overlap t (next_start csize overlap t start)"
      using True by (subst chunk_windows.simps) simp
    ultimately show ?thesis
      using True next_start_gt [of start csize overlap t] by simp
  next
    case False
    then show ?thesis by (subst chunk_windows.simps) simp
  qed
qed

lemma length_chunk_text: "length (chunk_text cfg t) \<le> length t"
proof -
  let ?cs = "case chunk_size cfg of None \<Rightarrow> 512 | Some v \<Rightarrow> v"
  let ?ov = "case chunk_overlap cfg of None \<Rightarrow> 50 | Some v \<Rightarrow> v"
  have "length (chunk_text cfg t) \<le> length (chunk_windows ?cs ?ov t 0)"
    by (simp add: chunk_text_def chunk_loop_windows)
  moreover have "int (length (chunk_windows ?cs ?ov t 0)) \<le> int (length t)"
    using length_chunk_windows [of 0 ?cs ?ov t] by simp
  ultimately show ?thesis by linarith
qed

lemma last_index_less: "last_index c xs = Some k \<Longrightarrow> k < length xs"
  by (induction xs arbitrary: k) (auto split: option.splits if_splits)

lemma last_index_None: "c \<notin> set xs \<Longrightarrow> last_index c xs = None"
  by (induction xs) auto

lemma py_slice_inner:
  "0 \<le> i \<Longrightarrow> i \<le> j \<Longrightarrow> j \<le> int (length xs) \<Longrightarrow>
   py_slice xs i j = take (nat (j - i)) (drop (nat i) xs)"
  by (simp add: py_slice_def py_index_def Let_def)

lemma length_py_slice_inner:
  "0 \<le> i \<Longrightarrow> i \<le> j \<Longrightarrow> j \<le> int (length xs) \<Longrightarrow> length (py_slice xs i j) = nat (j - i)"
  by (simp add: py_slice_inner)

lemma set_py_slice: "set (py_slice xs i j) \<subseteq> set xs"
  unfolding py_slice_def Let_def
  by (meson set_take_subset set_drop_subset subset_trans)

lemma py_rfind_bounds:
  assumes "0 \<le> i" "i \<le> j" "j \<le> int (length s)"
  shows "py_rfind s c i j = - 1 \<or> (i \<le> py_rfind s c i j \<and> py_rfind s c i j < j)"
proof (cases "last_index c (py_slice s i j)")
  case None
  then show ?thesis by (simp add: py_rfind_def)
next
  case (Some k)
  from last_index_less [OF Some] have "int k < j - i"
    using length_py_slice_inner [OF assms] by linarith
  moreover have "py_index (int (length s)) i = i"
    using assms by (simp add: py_index_def)
  ultimately show ?thesis using Some by (simp add: py_rfind_def)
qed

lemma py_rfind_absent: "c \<notin> set s \<Longrightarrow> py_rfind s c i j = - 1"
proof -
  assume "c \<notin> set s"
  then have "c \<notin> set (py_slice s i j)" using set_py_slice by fastforce
  then show ?thesis by (simp add: py_rfind_def last_index_None)
qed

lemma window_end_bounds:
  assumes "0 \<le> start" "start < int (length t)" "0 \<le> csize"
  shows "window_end csize t start \<le> min (start + csize) (int (length t)) \<and>
         (window_end csize t start = min (start + csize) (int (length t))
          \<or> start + csize div 2 + 2 \<le> window_end csize t start)"
proof -
  let ?e = "min (start + csize) (int (length t))"
  have b: "py_rfind t (CHR ''.'') start ?e = - 1 \<or>
        (start \<le> py_rfind t (CHR ''.'') start ?e \<and> py_rfind t (CHR ''.'') start ?e < ?e)"
    using assms by (intro py_rfind_bounds) auto
  have d: "0 \<le> csize div 2" using assms(3) by simp
  show ?thesis
    using b d assms(1) unfolding window_end_def Let_def
    by (auto split: if_splits)
qed

lemma window_end_plain:
  assumes "CHR ''.'' \<notin> set t" "- 1 \<le> start + csize div 2"
  shows "window_end csize t start = min (start + csize) (int (length t))"
  using assms by (simp add: window_end_def Let_def py_rfind_absent)

lemma chunk_windows_step:
  "start < int (length t) \<Longrightarrow>
   chunk_windows csize overlap t start =
     (start, window_end csize t start) # chunk_windows csize overlap t (next_start csize overlap t start)"
  by (subst chunk_windows.simps) simp

lemma chunk_windows_done:
  "\<not> start < int (length t) \<Longrightarrow> chunk_windows csize overlap t start = []"
  by (subst chunk_windows.simps) simp

lemma chunk_text_nonempty: "c \<in> set (chunk_text cfg t) \<Longrightarrow> c \<noteq> []"
  by (auto simp: chunk_text_def chunk_loop_windows)

lemma chunk_1000_shape:
  assumes len: "length t = 1000"
  shows "\<exists>e1 e2 rest.
           chunk_windows 512 50 t 0 = (0, e1) # (e1 - 50, e2) # rest
         \<and> e1 \<le> 512 \<and> e1 - 50 \<le> 462 \<and> rest \<noteq> []"
proof -
  define e1 where "e1 = window_end 512 t 0"
  define s2 where "s2 = next_start 512 50 t 0"
  define e2 where "e2 = window_end 512 t s2"
  define s3 where "s3 = next_start 512 50 t s2"
  have b1: "e1 \<le> 512 \<and> (e1 = 512 \<or> 258 \<le> e1)"
    using window_end_bounds [of 0 t 512] len by (simp add: e1_def)
  have s2: "s2 = e1 - 50" using b1 by (auto simp: s2_def next_start_def e1_def)
  have s2r: "208 \<le> s2 \<and> s2 \<le> 462" using b1 s2 by auto
  have b2: "e2 \<le> s2 + 512 \<and> (e2 = s2 + 512 \<or> s2 + 258 \<le> e2)"
    using window_end_bounds [of s2 t 512] len s2r by (auto simp: e2_def)
  have s3: "s3 = e2 - 50" using b2 by (auto simp: s3_def next_start_def e2_def)
  have s3r: "s3 < 1000" using b2 s3 s2r by auto
  have w1: "chunk_windows 512 50 t 0 = (0, e1) # chunk_windows 512 50 t s2"
    using chunk_windows_step [of 0 t 512 50] len by (simp add: e1_def s2_def)
  have w2: "chunk_windows 512 50 t s2 = (s2, e2) # chunk_windows 512 50 t s3"
    using chunk_windows_step [of s2 t 512 50] len s2r by (simp add: e2_def s3_def)
  have w3: "chunk_windows 512 50 t s3 \<noteq> []"
    using chunk_windows_step [of s3 t 512 50] len s3r by simp
  show ?thesis
    using w1 w2 w3 b1 s2 by auto
qed

lemma dropWhile_none: "\<forall>c\<in>set xs. \<not> P c \<Longrightarrow> dropWhile P xs = xs"
  by (cases xs) auto

lemma py_strip_plain:
  assumes "\<forall>c\<in>set s. \<not> is_space c"
  shows "py_strip s = s"
proof -
  have "dropWhile is_space s = s"
    using assms by (rule dropWhile_none)
  moreover have "dropWhile is_space (rev s) = rev s"
    using assms by (intro dropWhile_none) simp
  ultimately show ?thesis by (simp add: py_strip_def)
qed

lemma window_chunk_plain:
  assumes "\<forall>c\<in>set t. \<not> is_space c" "0 \<le> s" "s < e" "e \<le> int (length t)"
  shows "window_chunk t (s, e) \<noteq> []"
proof -
  have "\<forall>c\<in>set (py_slice t s e). \<not> is_space c"
    using assms(1) set_py_slice by fastforce
  then have "window_chunk t (s, e) = py_slice t s e"
    by (simp add: py_strip_plain)
  moreover have "length (py_slice t s e) = nat (e - s)"
    using assms by (intro length_py_slice_inner) auto
  ultimately show ?thesis using assms(3) by auto
qed

lemma plain_windows_all_kept:
  "CHR ''.'' \<notin> set t \<Longrightarrow> \<forall>c\<in>set t. \<not> is_space c \<Longrightarrow> 1 \<le> csize \<Longrightarrow> 0 \<le> start \<Longrightarrow>
     filter (\<lambda>c. c \<noteq> []) (map (window_chunk t) (chunk_windows csize overlap t start))
       = map (window_chunk t) (chunk_windows csize overlap t start)"
proof (induction csize overlap t start rule: chunk_windows.induct)
  case (1 csize overlap t start)
  show ?case
  proof (cases "start < int (length t)")
    case True
    have d: "0 \<le> csize div 2" using "1.prems"(3) by simp
    have we: "window_end csize t start = min (start + csize) (int (length t))"
      using "1.prems" d by (intro window_end_plain) auto
    have ne: "window_chunk t (start, window_end csize t start) \<noteq> []"
      using "1.prems" True we by (intro window_chunk_plain) auto
    have "0 \<le> next_start csize overlap t start"
      using "1.prems"(4) next_start_gt [of start csize overlap t] by linarith
    from "1.IH" [OF True "1.prems"(1,2,3) this] ne show ?thesis
      by (simp add: chunk_windows_step [OF True])
  next
    case False
    then show ?thesis by (simp add: chunk_windows_done)
  qed
qed

lemma plain_1000_windows:
  assumes "length t = 1000" "CHR ''.'' \<notin> set t"
  shows "length (chunk_windows 512 50 t 0) = 53"
proof -
  have we: "\<And>start. 0 \<le> start \<Longrightarrow> window_end 512 t start = min (start + 512) 1000"
    using assms by (simp add: window_end_plain)
  show ?thesis
    using assms(1) by (simp add: chunk_windows.simps [of 512 50 t] next_start_def we)
qed

lemma plain_1000_chunks:
  assumes "length t = 1000" "CHR ''.'' \<notin> set t" "\<forall>c\<in>set t. \<not> is_space c"
  shows "length (chunk_text \<lparr>chunk_size = Some 512, chunk_overlap = Some 50\<rparr> t) = 53"
  using plain_windows_all_kept [of t 512 0 50] plain_1000_windows [OF assms(1,2)] assms
  by (simp add: chunk_text_def chunk_loop_windows)

section \<open>Properties of the classifier, the link extraction, ingestion and search\<close>

lemma patterns_of_init:
  "patterns_of (eng\<lparr>compiled_patterns := init_privacy_detector\<rparr>) PERSONAL = personal_patterns"
  "patterns_of (eng\<lparr>compiled_patterns := init_privacy_detector\<rparr>) BUSINESS = business_patterns"
  by (simp_all add: patterns_of_def init_privacy_detector_def)

lemma personal_email: "list_ex (\<lambda>r. search r ''Contact me at alice@example.com'') personal_patterns"
  by code_simp

lemma personal_confidential:
  "list_ex (\<lambda>r. search r ''This contract is confidential and includes client revenue details'') personal_patterns"
  by code_simp

lemma business_confidential:
  "list_ex (\<lambda>r. search r ''This contract is confidential and includes client revenue details'') business_patterns"
  by code_simp

lemma fox_personal:
  "\<not> list_ex (\<lambda>r. search r ''The quick brown fox jumps over the lazy dog'') personal_patterns"
  by code_simp

lemma fox_business:
  "\<not> list_ex (\<lambda>r. search r ''The quick brown fox jumps over the lazy dog'') business_patterns"
  by code_simp

lemma contract_personal_patterns:
  "map (\<lambda>r. search r ''This contract is confidential and includes client revenue details'')
       personal_patterns = [False, False, False, True, False]"
  by code_simp

lemma classify_frame:
  "snd (classify_privacy_tier eng t) = eng\<lparr>stats := stats (snd (classify_privacy_tier eng t))\<rparr>"
  by (simp add: classify_privacy_tier_def Let_def split: option.splits)

lemma classify_fields:
  "nlp_pipeline (snd (classify_privacy_tier eng t)) = nlp_pipeline eng"
  "collections (snd (classify_privacy_tier eng t)) = collections eng"
  "config (snd (classify_privacy_tier eng t)) = config eng"
  "calls (snd (classify_privacy_tier eng t)) = calls eng"
  by (subst classify_frame, simp)+

lemma py_list_set_distinct: "distinct (py_list_set rank xs)"
  by (simp add: py_list_set_def)

lemma py_list_set_set: "set (py_list_set rank xs) = set xs"
  by (simp add: py_list_set_def)

lemma chunk_text_empty: "chunk_text cfg [] = []"
  by (simp add: chunk_text_def chunk_loop.simps)

lemma process_document_links:
  assumes "process_document ext eng p vault = (Inr md, eng')"
  shows "obsidian_links md =
           (if vault \<noteq> None \<and> vault \<noteq> Some []
            then extract_obsidian_links (set_rank ext) (extract_text_content (files ext) p) else [])"
proof -
  obtain tier eng1 where cl: "classify_privacy_tier eng (extract_text_content (files ext) p) = (tier, eng1)"
    by (cases "classify_privacy_tier eng (extract_text_content (files ext) p)")
  show ?thesis
    using assms cl
    by (auto simp: process_document_def Let_def split: option.splits sum.splits if_splits)
qed

lemma process_document_missing_file:
  assumes "files ext (path_str p) = None"
  shows "\<exists>e eng'. process_document ext eng p vault = (Inl e, eng')"
proof -
  obtain tier eng1 where cl: "classify_privacy_tier eng (extract_text_content (files ext) p) = (tier, eng1)"
    by (cases "classify_privacy_tier eng (extract_text_content (files ext) p)")
  show ?thesis
    using assms cl
    by (auto simp: process_document_def Let_def split: option.splits sum.splits)
qed

lemma collect_results_acc:
  "collect_results sr i docs acc =
     (case collect_results sr i docs [] of Inl e \<Rightarrow> Inl e | Inr l \<Rightarrow> Inr (acc @ l))"
proof (induction docs arbitrary: i acc)
  case Nil
  show ?case by simp
next
  case (Cons doc docs)
  show ?case
  proof (cases "bind_err (py_get (qr_metadatas sr) 0) (\<lambda>ms. py_get ms i)")
    case (Inl e)
    then show ?thesis by (simp add: bind_err_def)
  next
    case m: (Inr m)
    show ?thesis
    proof (cases "bind_err (py_get (qr_distances sr) 0) (\<lambda>ds. py_get ds i)")
      case (Inl e)
      then show ?thesis using m by (simp add: bind_err_def)
    next
      case d: (Inr d)
      show ?thesis
      proof (cases "bind_err (py_get (qr_ids sr) 0) (\<lambda>is. py_get is i)")
        case (Inl e)
        then show ?thesis using m d by (simp add: bind_err_def)
      next
        case ident: (Inr ident)
        let ?row = "\<lparr>document = doc, metadata = m, distance = d, result_id = ident\<rparr>"
        have l: "collect_results sr i (doc # docs) acc = collect_results sr (Suc i) docs (acc @ [?row])"
          using m d ident by (simp add: bind_err_def)
        have r: "collect_results sr i (doc # docs) [] = collect_results sr (Suc i) docs [?row]"
          using m d ident by (simp add: bind_err_def)
        show ?thesis
          unfolding l r
          by (subst Cons.IH [of "Suc i" "acc @ [?row]"], subst Cons.IH [of "Suc i" "[?row]"])
             (simp split: sum.splits)
      qed
    qed
  qed
qed


lemma search_collections_log:
  "\<exists>rest. snd (search_collections ext qe limit colls log acc) = log @ rest"
proof (induction colls arbitrary: log acc)
  case Nil
  show ?case by simp
next
  case (Cons tc colls)
  obtain tier c where tc: "tc = (tier, c)" by (cases tc)
  show ?case
  proof (cases "coll_query ext c qe (min limit 100)")
    case (Inl e)
    then show ?thesis using tc by (simp add: Let_def)
  next
    case (Inr sr)
    show ?thesis
    proof (cases "bind_err (py_get (qr_documents sr) 0) (\<lambda>docs. collect_results sr 0 docs acc)")
      case (Inl e)
      then show ?thesis using tc Inr by (simp add: Let_def)
    next
      case r: (Inr acc')
      from Cons.IH [of "log @ [CallQuery tier (min limit 100)]" acc']
      obtain rest where "snd (search_collections ext qe limit colls (log @ [CallQuery tier (min limit 100)]) acc')
          = (log @ [CallQuery tier (min limit 100)]) @ rest" by blast
      then show ?thesis using tc Inr r by (simp add: Let_def)
    qed
  qed
qed


lemma collections_to_search_calls [simp]:
  "collections_to_search (eng\<lparr>calls := cs\<rparr>) tf = collections_to_search eng tf"
  by (cases tf) (simp_all add: collections_to_search_def collection_values_def)

lemma search_collections_fst:
  "fst (search_collections ext qe limit colls log acc) =
     bind_err (all_tier_results ext qe limit colls) (\<lambda>lists. Inr (acc @ concat lists))"
proof (induction colls arbitrary: log acc)
  case Nil
  show ?case by (simp add: bind_err_def)
next
  case (Cons tc colls)
  obtain tier c where tc: "tc = (tier, c)" by (cases tc)
  show ?case
  proof (cases "coll_query ext c qe (min limit 100)")
    case (Inl e)
    then show ?thesis using tc by (simp add: Let_def tier_results_def bind_err_def)
  next
    case sr: (Inr sr)
    show ?thesis
    proof (cases "py_get (qr_documents sr) 0")
      case (Inl e)
      then show ?thesis using tc sr by (simp add: Let_def tier_results_def bind_err_def)
    next
      case docs: (Inr docs)
      show ?thesis
      proof (cases "collect_results sr 0 docs []")
        case (Inl e)
        then have "collect_results sr 0 docs acc = Inl e"
          by (subst collect_results_acc) simp
        with Inl show ?thesis using tc sr docs
          by (simp add: Let_def tier_results_def bind_err_def)
      next
        case l: (Inr l)
        then have a: "collect_results sr 0 docs acc = Inr (acc @ l)"
          by (subst collect_results_acc) simp
        have t: "tier_results ext qe limit c = Inr l"
          using sr docs l by (simp add: tier_results_def bind_err_def)
        have "fst (search_collections ext qe limit (tc # colls) log acc)
                = fst (search_collections ext qe limit colls (log @ [CallQuery tier (min limit 100)]) (acc @ l))"
          using tc sr docs a by (simp add: Let_def bind_err_def)
        also have "\<dots> = bind_err (all_tier_results ext qe limit colls) (\<lambda>lists. Inr ((acc @ l) @ concat lists))"
          by (rule Cons.IH)
        also have "\<dots> = bind_err (all_tier_results ext qe limit (tc # colls)) (\<lambda>lists. Inr (acc @ concat lists))"
          using t tc by (simp add: bind_err_def split: sum.splits)
        finally show ?thesis .
      qed
    qed
  qed
qed

lemma semantic_search_fst:
  "fst (semantic_search ext eng q tf limit) =
     bind_err (encode ext [q]) (\<lambda>qe.
     bind_err (collections_to_search eng tf) (\<lambda>colls.
     bind_err (all_tier_results ext qe limit colls) (\<lambda>lists.
       Inr (py_slice (sort_key distance (concat lists)) 0 limit))))"
proof (cases "encode ext [q]")
  case (Inl e)
  then show ?thesis by (simp add: semantic_search_def Let_def bind_err_def)
next
  case qe: (Inr qe)
  show ?thesis
  proof (cases "collections_to_search eng tf")
    case (Inl e)
    then show ?thesis using qe by (simp add: semantic_search_def Let_def bind_err_def)
  next
    case colls: (Inr colls)
    let ?sc = "search_collections ext qe limit colls (calls eng @ [CallEncode [q]]) []"
    have f: "fst ?sc = bind_err (all_tier_results ext qe limit colls) (\<lambda>lists. Inr (concat lists))"
      using search_collections_fst [of ext qe limit colls "calls eng @ [CallEncode [q]]" "[]"] by simp
    show ?thesis
    proof (cases "all_tier_results ext qe limit colls")
      case (Inl e)
      with f have "fst ?sc = Inl e" by (simp add: bind_err_def)
      then obtain log where "?sc = (Inl e, log)" by (cases ?sc) auto
      then show ?thesis using qe colls Inl
        by (simp add: semantic_search_def Let_def bind_err_def)
    next
      case (Inr lists)
      with f have "fst ?sc = Inr (concat lists)" by (simp add: bind_err_def)
      then obtain log where "?sc = (Inr (concat lists), log)" by (cases ?sc) auto
      then show ?thesis using qe colls Inr
        by (simp add: semantic_search_def Let_def bind_err_def)
    qed
  qed
qed

lemma semantic_search_calls:
  "\<exists>rest. calls (snd (semantic_search ext eng q tf limit)) = calls eng @ CallEncode [q] # rest"
proof (cases "encode ext [q]")
  case (Inl e)
  then show ?thesis by (simp add: semantic_search_def Let_def)
next
  case (Inr qe)
  show ?thesis
  proof (cases "collections_to_search eng tf")
    case (Inl e)
    then show ?thesis using Inr
      by (simp add: semantic_search_def Let_def)
  next
    case colls: (Inr colls)
    from search_collections_log [of ext qe limit colls "calls eng @ [CallEncode [q]]" "[]"]
    obtain rest where "snd (search_collections ext qe limit colls (calls eng @ [CallEncode [q]]) [])
        = (calls eng @ [CallEncode [q]]) @ rest"
      by blast
    then show ?thesis using Inr colls
      by (auto simp: semantic_search_def Let_def split: sum.splits prod.splits)
  qed
qed



section \<open>Claims about the chunker\<close>

text \<open>
  C5 (counterexample). The claim says that chunking fails with an InvalidConfiguration
  error when \<open>target_size > overlap >= 0\<close> does not hold. \<open>_chunk_text\<close> tests nothing:
  with \<open>chunk_size = 2\<close> and \<open>chunk_overlap = 5\<close>, which violates the requirement, the
  text \<open>abc\<close> is cut into three chunks.
\<close>

theorem chunk_invalid_config_counterexample:
  "\<not> chunk_precondition 2 5 \<and>
   chunk_text \<lparr>chunk_size = Some 2, chunk_overlap = Some 5\<rparr> ''abc'' = [''ab'', ''bc'', ''c'']"
  by (simp add: chunk_precondition_def) code_simp

text \<open>
  C5 (amended). For every text and every integer \<open>chunk_size\<close> and \<open>chunk_overlap\<close>, also
  those with \<open>overlap >= target_size\<close> or \<open>overlap < 0\<close>, chunking makes no check of the
  configuration and returns a chunk sequence: the trimmed texts of the windows the loop
  cuts, in order, without the ones that are empty after trimming.
\<close>

theorem chunk_text_no_config_check:
  "chunk_text \<lparr>chunk_size = Some csize, chunk_overlap = Some overlap\<rparr> t =
     filter (\<lambda>c. c \<noteq> []) (map (window_chunk t) (chunk_windows csize overlap t 0))
   \<and> [] \<notin> set (chunk_text \<lparr>chunk_size = Some csize, chunk_overlap = Some overlap\<rparr> t)"
  using chunk_text_nonempty [of "[]"]
  by (auto simp: chunk_text_def chunk_loop_windows)

text \<open>
  C8 (counterexample). The claim says that every text of 1000 characters gives exactly two
  chunks with \<open>target_size = 512\<close> and \<open>overlap = 50\<close>. The text of 1000 letters \<open>a\<close> gives
  53: the windows \<open>[0,512)\<close>, \<open>[462,974)\<close>, \<open>[924,1000)\<close>, and then one window
  \<open>[k,1000)\<close> for every \<open>k\<close> from 950 to 999, since once \<open>end\<close> is the end of the text the
  start moves by \<open>max(start + 1, end - overlap)\<close>.
\<close>

theorem chunk_1000_counterexample:
  "length (replicate 1000 (CHR ''a'')) = 1000 \<and>
   length (chunk_text \<lparr>chunk_size = Some 512, chunk_overlap = Some 50\<rparr>
             (replicate 1000 (CHR ''a''))) = 53"
proof -
  have "length (chunk_text \<lparr>chunk_size = Some 512, chunk_overlap = Some 50\<rparr>
             (replicate 1000 (CHR ''a''))) = 53"
    by (rule plain_1000_chunks) (simp_all add: is_space_def)
  then show ?thesis by simp
qed

text \<open>
  C8 (amended). For every text of exactly 1000 characters, chunking with
  \<open>target_size = 512\<close> and \<open>overlap = 50\<close> cuts a first window \<open>[0, e1)\<close> with \<open>e1 \<le> 512\<close>,
  a second window that starts at \<open>e1 - 50\<close>, at or before character 462, and at least one
  more window (two windows end by character 974); the chunks are the trimmed windows
  that are not empty, so no chunk is empty. The number of chunks is not fixed at two.
\<close>

theorem chunk_1000_shape_thm:
  assumes "length t = 1000"
  shows "(\<exists>e1 e2 rest.
            chunk_windows 512 50 t 0 = (0, e1) # (e1 - 50, e2) # rest
          \<and> e1 \<le> 512 \<and> e1 - 50 \<le> 462 \<and> rest \<noteq> [])
       \<and> chunk_text \<lparr>chunk_size = Some 512, chunk_overlap = Some 50\<rparr> t =
            filter (\<lambda>c. c \<noteq> []) (map (window_chunk t) (chunk_windows 512 50 t 0))
       \<and> [] \<notin> set (chunk_text \<lparr>chunk_size = Some 512, chunk_overlap = Some 50\<rparr> t)"
  using chunk_1000_shape [OF assms] chunk_text_nonempty [of "[]"]
  by (auto simp: chunk_text_def chunk_loop_windows)

theorem chunk_1000_shape_witness:
  "length (replicate 1000 (CHR ''a'')) = 1000
   \<and> (\<exists>e1 e2 rest.
            chunk_windows 512 50 (replicate 1000 (CHR ''a'')) 0 = (0, e1) # (e1 - 50, e2) # rest
          \<and> e1 \<le> 512 \<and> e1 - 50 \<le> 462 \<and> rest \<noteq> [])
   \<and> [] \<notin> set (chunk_text \<lparr>chunk_size = Some 512, chunk_overlap = Some 50\<rparr>
                      (replicate 1000 (CHR ''a'')))"
  using chunk_1000_shape_thm [of "replicate 1000 (CHR ''a'')"] by simp

text \<open>
  C9. Chunking terminates for every text and every integer configuration (also outside
  \<open>chunk_size >= 1\<close> and outside the specification's requirement on the overlap): every
  iteration moves \<open>start\<close> forward by at least one character, so the loop run with a budget
  of \<open>len(text)\<close> iterations reaches its exit and returns the chunk list, which has at
  most \<open>len(text)\<close> chunks.
\<close>

theorem chunk_text_terminates:
  "start + 1 \<le> next_start csize overlap t start
   \<and> chunk_loop_fuel (length t) csize overlap t 0 [] = Some (chunk_loop csize overlap t 0 [])
   \<and> length (chunk_text cfg t) \<le> length t"
  using next_start_gt [of start csize overlap t] length_chunk_text [of cfg t]
  by (simp add: chunk_loop_fuel_enough)

section \<open>Claims about the classifier\<close>

text \<open>
  C1. The claim gives three classifications. The first and the third hold: the e-mail
  text is \<open>PERSONAL\<close>, and the pangram is \<open>PUBLIC\<close> unless the entity extractor
  reports more than five sensitive entities in it. The second does not: in
  \<open>This contract is confidential and includes client revenue details\<close> the fourth
  Personal pattern matches through its alternative \<open>confidential\b\<close>, so the text is
  \<open>PERSONAL\<close>, and the Business patterns, which match too, are never tried.
\<close>

theorem classify_scenarios:
  "fst (classify_privacy_tier (eng\<lparr>compiled_patterns := init_privacy_detector\<rparr>)
          ''Contact me at alice@example.com'') = PERSONAL
   \<and> fst (classify_privacy_tier (eng\<lparr>compiled_patterns := init_privacy_detector\<rparr>)
          ''This contract is confidential and includes client revenue details'') = PERSONAL
   \<and> map (\<lambda>r. search r ''This contract is confidential and includes client revenue details'')
          personal_patterns = [False, False, False, True, False]
   \<and> list_ex (\<lambda>r. search r ''This contract is confidential and includes client revenue details'')
          business_patterns
   \<and> fst (classify_privacy_tier (eng\<lparr>compiled_patterns := init_privacy_detector\<rparr>)
          ''The quick brown fox jumps over the lazy dog'')
       = (case nlp_pipeline eng of
            None \<Rightarrow> PUBLIC
          | Some nlp \<Rightarrow>
              if length (filter (\<lambda>ent. fst ent \<in> set sensitive_entities)
                           (nlp (take 1000 ''The quick brown fox jumps over the lazy dog''))) > 5
              then BUSINESS else PUBLIC)"
  using personal_email personal_confidential business_confidential fox_personal fox_business
    contract_personal_patterns
  by (simp add: classify_privacy_tier_def patterns_of_def init_privacy_detector_def Let_def
           split: option.splits)

text \<open>
  C3. Classification is a total function of the engine and the text, its result is one of
  the three tiers, and whenever some Personal pattern is found anywhere in the text the
  result is \<open>PERSONAL\<close>, whatever the Business patterns find.
\<close>

theorem classify_personal_priority:
  "fst (classify_privacy_tier eng t) \<in> {PUBLIC, BUSINESS, PERSONAL}
   \<and> (list_ex (\<lambda>pattern. search pattern t) (patterns_of eng PERSONAL)
        \<longrightarrow> fst (classify_privacy_tier eng t) = PERSONAL)"
  by (cases "fst (classify_privacy_tier eng t)") (simp_all add: classify_privacy_tier_def)

theorem classify_personal_priority_witness:
  "list_ex (\<lambda>pattern. search pattern ''This contract is confidential and includes client revenue details'')
     (patterns_of demo_engine PERSONAL)
   \<and> list_ex (\<lambda>pattern. search pattern ''This contract is confidential and includes client revenue details'')
     (patterns_of demo_engine BUSINESS)
   \<and> fst (classify_privacy_tier demo_engine
        ''This contract is confidential and includes client revenue details'') = PERSONAL"
proof -
  have p: "patterns_of demo_engine PERSONAL = personal_patterns"
    and b: "patterns_of demo_engine BUSINESS = business_patterns"
    by (simp_all add: patterns_of_def demo_engine_def init_privacy_detector_def)
  show ?thesis
    using classify_personal_priority [of demo_engine
        "''This contract is confidential and includes client revenue details''"]
      personal_confidential business_confidential
    by (simp add: p b)
qed

section \<open>Claims about link extraction\<close>

text \<open>
  C10. The list \<open>_extract_obsidian_links\<close> returns has no duplicates and holds exactly the
  link targets found in the text, so the \<open>obsidian_links\<close> of a returned document record
  has each target at most once. The order is the iteration order of a set and need not be
  the order of occurrence: with a rank that puts \<open>a\<close> first, \<open>[[b]] [[a]] [[b]]\<close> gives
  \<open>a, b\<close>.
\<close>

theorem obsidian_links_distinct:
  "distinct (extract_obsidian_links rank t)
   \<and> set (extract_obsidian_links rank t) = set (findall_links t)
   \<and> (process_document ext eng p vault = (Inr md, eng') \<longrightarrow> distinct (obsidian_links md))
   \<and> findall_links ''[[b]] [[a]] [[b]]'' = [''b'', ''a'', ''b'']
   \<and> extract_obsidian_links (\<lambda>s. if s = ''a'' then 0 else 1) ''[[b]] [[a]] [[b]]'' = [''a'', ''b'']"
proof -
  have "findall_links ''[[b]] [[a]] [[b]]'' = [''b'', ''a'', ''b'']"
    by code_simp
  moreover have "extract_obsidian_links (\<lambda>s. if s = ''a'' then 0 else 1) ''[[b]] [[a]] [[b]]'' = [''a'', ''b'']"
    by code_simp
  moreover have "process_document ext eng p vault = (Inr md, eng') \<longrightarrow> distinct (obsidian_links md)"
    using process_document_links [of ext eng p vault md eng']
    by (simp add: extract_obsidian_links_def py_list_set_distinct)
  ultimately show ?thesis
    by (simp add: extract_obsidian_links_def py_list_set_distinct py_list_set_set)
qed

theorem obsidian_links_distinct_witness:
  "fst (process_document demo_externals demo_engine
          \<lparr>path_str = ''/note.md'', suffix = ''.md''\<rparr> (Some ''vault''))
     = Inr \<lparr>file_path = ''/note.md'', content_hash = ''h17'', privacy_tier = PUBLIC, file_type = ''.md'',
             size_bytes = 17, processed_timestamp = ''2024-01-01T00:00:00'',
             embedding_model = ''all-MiniLM-L6-v2'', chunk_count = 17, language = ''en'',
             sentiment_score = 0, topics = [''general''], entities = [], vault_location = Some ''vault'',
             obsidian_links = [''a'', ''b'']\<rparr>
   \<and> distinct [''a'', ''b'']"
proof -
  let ?md = "\<lparr>file_path = ''/note.md'', content_hash = ''h17'', privacy_tier = PUBLIC, file_type = ''.md'',
             size_bytes = 17, processed_timestamp = ''2024-01-01T00:00:00'',
             embedding_model = ''all-MiniLM-L6-v2'', chunk_count = 17, language = ''en'',
             sentiment_score = 0, topics = [''general''], entities = [], vault_location = Some ''vault'',
             obsidian_links = [''a'', ''b'']\<rparr>"
  let ?run = "process_document demo_externals demo_engine
          \<lparr>path_str = ''/note.md'', suffix = ''.md''\<rparr> (Some ''vault'')"
  have f: "fst ?run = Inr ?md"
    by code_simp
  then have h: "?run = (Inr ?md, snd ?run)"
    by (simp add: prod_eq_iff)
  from obsidian_links_distinct [of "set_rank demo_externals" "[]" demo_externals demo_engine
        "\<lparr>path_str = ''/note.md'', suffix = ''.md''\<rparr>" "Some ''vault''" ?md "snd ?run"] h
  have "distinct (obsidian_links ?md)" by blast
  with f show ?thesis by simp
qed

section \<open>Claims about ingestion\<close>

text \<open>
  C4. The claim says that ingestion of a document whose extracted text is empty completes
  and returns a record with \<open>chunk_count = 0\<close>. \<open>process_document\<close> has no guard for an
  empty chunk list: it calls \<open>encode([])\<close> and then \<open>collection.add\<close> with no ids, no
  documents and no embeddings. A collection that refuses such a batch makes the ingestion
  raise the collection's error, so no record is returned. In the concrete environment the
  empty file \<open>/empty.txt\<close> is extracted to the empty string and its ingestion raises
  \<open>ValueError\<close>.
\<close>

theorem process_document_empty_batch_raises:
  assumes "extract_text_content (files ext) p = []"
    and "nlp_pipeline eng = Some nlp"
    and "encode ext [] = Inr embs"
    and "collections eng (fst (classify_privacy_tier eng [])) = Some c"
    and "coll_add ext c \<lparr>embeddings = embs, documents = [], ids = [], metadatas = []\<rparr> = Inl e"
  shows "fst (process_document ext eng p vault) = Inl e
       \<and> calls (snd (process_document ext eng p vault))
           = calls eng @ [CallEncode [], CallAdd (fst (classify_privacy_tier eng [])) []]"
proof -
  obtain tier eng1 where cl: "classify_privacy_tier eng [] = (tier, eng1)"
    by (cases "classify_privacy_tier eng []")
  have f: "nlp_pipeline eng1 = Some nlp" "collections eng1 = collections eng"
      "calls eng1 = calls eng"
    using classify_fields [of eng "[]"] cl assms(2) by simp_all
  show ?thesis
    using assms cl f
    by (simp add: process_document_def Let_def chunk_text_empty chunk_metadatas_def)
qed

theorem process_document_empty_batch_raises_witness:
  "extract_text_content (files demo_externals) \<lparr>path_str = ''/empty.txt'', suffix = ''.txt''\<rparr> = []
   \<and> fst (process_document demo_externals demo_engine
             \<lparr>path_str = ''/empty.txt'', suffix = ''.txt''\<rparr> None) = Inl ValueError
   \<and> calls (snd (process_document demo_externals demo_engine
             \<lparr>path_str = ''/empty.txt'', suffix = ''.txt''\<rparr> None))
       = [CallEncode [], CallAdd PUBLIC []]"
proof -
  let ?p = "\<lparr>path_str = ''/empty.txt'', suffix = ''.txt''\<rparr>"
  let ?c = "[(''a_0'', ''aaaa'', 4), (''b_0'', ''bb'', 2)] :: demo_collection"
  have h1: "extract_text_content (files demo_externals) ?p = []"
    by code_simp
  have h2: "nlp_pipeline demo_engine = Some (\<lambda>t. [])"
    by (simp add: demo_engine_def)
  have h3: "encode demo_externals [] = Inr []"
    by (simp add: demo_externals_def)
  have pe: "\<not> list_ex (\<lambda>r. search r []) personal_patterns"
    by code_simp
  have be: "\<not> list_ex (\<lambda>r. search r []) business_patterns"
    by code_simp
  have pp: "patterns_of demo_engine PERSONAL = personal_patterns"
    and pb: "patterns_of demo_engine BUSINESS = business_patterns"
    by (simp_all add: patterns_of_def demo_engine_def init_privacy_detector_def)
  have t: "fst (classify_privacy_tier demo_engine []) = PUBLIC"
    using pe be by (simp add: classify_privacy_tier_def pp pb h2 sensitive_entities_def)
  have h4: "collections demo_engine (fst (classify_privacy_tier demo_engine [])) = Some ?c"
    unfolding t by (simp add: demo_engine_def)
  have h5: "coll_add demo_externals ?c \<lparr>embeddings = [], documents = [], ids = [], metadatas = []\<rparr>
              = Inl ValueError"
    by (simp add: demo_externals_def demo_add_def)
  have c: "calls demo_engine = []"
    by (simp add: demo_engine_def)
  show ?thesis
    using process_document_empty_batch_raises [OF h1 h2 h3 h4 h5, of None] h1
    by (simp add: t c)
qed

section \<open>Claims about search\<close>




text \<open>
  C7 (counterexample). The claim says that a search with an empty query text or a limit
  that is not positive is rejected before any external call. \<open>semantic_search\<close> has no
  such test: with the empty query and limit 10 the embedding model and the three
  collections are called and results are returned, and with limit 0 the embedding model
  and the first collection are called before the store refuses \<open>n_results = 0\<close>.
\<close>

theorem semantic_search_no_validation_counterexample:
  "calls (snd (semantic_search demo_externals demo_engine [] None 10))
     = [CallEncode [[]], CallQuery PUBLIC 10, CallQuery BUSINESS 10, CallQuery PERSONAL 10]
   \<and> \<not> isl (fst (semantic_search demo_externals demo_engine [] None 10))
   \<and> calls (snd (semantic_search demo_externals demo_engine ''x'' None 0))
     = [CallEncode [''x''], CallQuery PUBLIC 0]"
  by code_simp

text \<open>
  C7 (amended). A search makes no check of the query text or of the limit, and there is
  no InvalidQuery error. For every query, tier filter and limit, also the empty query and
  a limit that is not positive, the first thing it does is call the embedding model with
  the query text as given, and its outcome is decided by what the external calls answer:
  the error of the embedding call when that raises; else \<open>KeyError\<close> when the tier of the
  filter has no collection; else the first error of a collection query or of reading its
  answer (\<open>IndexError\<close> on a result array that is too short); else \<open>results[:limit]\<close> of the
  merged list sorted by distance.
\<close>

theorem semantic_search_no_validation:
  "(\<exists>rest. calls (snd (semantic_search ext eng q tf limit)) = calls eng @ CallEncode [q] # rest)
   \<and> fst (semantic_search ext eng q tf limit) =
       bind_err (encode ext [q]) (\<lambda>qe.
       bind_err (collections_to_search eng tf) (\<lambda>colls.
       bind_err (all_tier_results ext qe limit colls) (\<lambda>lists.
         Inr (py_slice (sort_key distance (concat lists)) 0 limit))))"
  using semantic_search_calls [of ext eng q tf limit] semantic_search_fst [of ext eng q tf limit]
  by simp

end
